theory Spec2Isabelle
  imports Main "HOL-Library.AList"
begin

section \<open>Data model\<close>

text \<open>
  \<^verbatim>\<open>class TableRow<T> { data: T; id: string }\<close> (tableRow.ts). The type parameter
  \<open>'d\<close> is the source's \<open>T\<close>, the shape of a row's data. The field \<open>id\<close> is
  written \<open>id'\<close>, \<open>id\<close> being the identity function of HOL.
\<close>

record 'd TableRow =
  data :: 'd
  id' :: string

text \<open>\<^verbatim>\<open>type BackupRow<T> = { row: TableRow<T>; subscribers: number }\<close> (table.ts).\<close>

record 'd BackupRow =
  row :: "'d TableRow"
  subscribers :: int

text \<open>What the source throws: \<^verbatim>\<open>new Error(msg)\<close>, and the \<^verbatim>\<open>TypeError\<close> that
  JavaScript raises when a property of \<^verbatim>\<open>undefined\<close> is read.\<close>

datatype error = Error string | TypeError

section \<open>PessimisticBackup\<close>

text \<open>
  The field \<^verbatim>\<open>data: Map<string, BackupRow<T>>\<close> is an association list in insertion
  order. \<^verbatim>\<open>Map.set\<close> is \<open>AList.update\<close> (the value is replaced in place when the key
  is there, the pair is appended otherwise), \<^verbatim>\<open>Map.delete\<close> is \<open>AList.delete\<close>,
  \<^verbatim>\<open>Map.get\<close> is \<open>map_of\<close> with \<open>None\<close> for \<^verbatim>\<open>undefined\<close>. The back pointer
  \<^verbatim>\<open>table\<close> is never read and is left out.
\<close>

type_synonym 'd PessimisticBackup = "(string \<times> 'd BackupRow) list"

text \<open>\<^verbatim>\<open>structuredClone\<close>: rows are immutable values here, so a deep copy of a row is the
  row.\<close>

definition structuredClone :: "'a \<Rightarrow> 'a" where
  "structuredClone x = x"

definition has :: "'d PessimisticBackup \<Rightarrow> string \<Rightarrow> bool" where
  "has pb i = (map_of pb i \<noteq> None)"

definition get :: "'d PessimisticBackup \<Rightarrow> string \<Rightarrow> 'd BackupRow option" where
  "get pb i = map_of pb i"

text \<open>
  \<^verbatim>\<open>backup(row) { if (this.has(row.id)) { this.data.get(row.id).subscribers++; return; }
    this.data.set(row.id, { row: structuredClone(row), subscribers: 1 }); }\<close>
\<close>

definition backup :: "'d TableRow \<Rightarrow> 'd PessimisticBackup \<Rightarrow> 'd PessimisticBackup" where
  "backup r pb =
     (if has pb (id' r)
      then (case get pb (id' r) of
              Some b \<Rightarrow> AList.update (id' r) (b\<lparr>subscribers := subscribers b + 1\<rparr>) pb
            | None \<Rightarrow> pb)
      else AList.update (id' r) \<lparr>row = structuredClone r, subscribers = 1\<rparr> pb)"

text \<open>
  \<^verbatim>\<open>release(row) { if (!this.has(row.id)) throw new Error("Row not found in backup");
    let backupRow = this.data.get(row.id); backupRow.subscribers--;
    if (backupRow.subscribers === 0) this.data.delete(row.id);
    return backupRow.row; }\<close>
  The result is the error, or the returned snapshot with the log after the call.
\<close>

definition release ::
  "'d TableRow \<Rightarrow> 'd PessimisticBackup \<Rightarrow> error + ('d TableRow \<times> 'd PessimisticBackup)" where
  "release r pb =
     (if \<not> has pb (id' r) then Inl (Error ''Row not found in backup'')
      else (case get pb (id' r) of
              None \<Rightarrow> Inl TypeError
            | Some b \<Rightarrow>
                (let backupRow = b\<lparr>subscribers := subscribers b - 1\<rparr>;
                     pb1 = AList.update (id' r) backupRow pb
                 in Inr (row backupRow,
                         if subscribers backupRow = 0 then AList.delete (id' r) pb1 else pb1))))"

text \<open>The logs that sequences of \<open>backup\<close> and \<open>release\<close> calls build from the empty
  log of the constructor.\<close>

inductive reachable :: "'d PessimisticBackup \<Rightarrow> bool" where
  init: "reachable []"
| by_backup: "reachable pb \<Longrightarrow> reachable (backup r pb)"
| by_release: "reachable pb \<Longrightarrow> release r pb = Inr (x, pb') \<Longrightarrow> reachable pb'"

text \<open>\<open>releases n r pb\<close> calls \<open>release r\<close> \<open>n\<close> times in a row and lists what each call
  returned; it stops at the first call that throws.\<close>

fun releases ::
  "nat \<Rightarrow> 'd TableRow \<Rightarrow> 'd PessimisticBackup \<Rightarrow> (error + 'd TableRow) list" where
  "releases 0 r pb = []"
| "releases (Suc n) r pb =
     (case release r pb of
        Inl e \<Rightarrow> [Inl e]
      | Inr (x, pb') \<Rightarrow> Inr x # releases n r pb')"

text \<open>The invariant of the log: one entry for an identity, every count at least 1.\<close>

definition wf_log :: "'d PessimisticBackup \<Rightarrow> bool" where
  "wf_log pb = (distinct (map fst pb) \<and> list_all (\<lambda>(i, b). 1 \<le> subscribers b) pb)"

section \<open>TableRow: conditions\<close>

text \<open>
  \<^verbatim>\<open>Condition\<close> (condition.js, not among the sources) is read by the source through
  its properties \<^verbatim>\<open>type\<close>, \<^verbatim>\<open>column\<close> and \<^verbatim>\<open>value\<close> only; \<^verbatim>\<open>Conditions.conditions\<close>
  is the list of them. \<open>'v\<close> is the type of JavaScript values.
\<close>

record 'v Condition =
  type_c :: string
  column :: string
  value_c :: 'v

text \<open>
  The JavaScript operations on dynamic values that the source uses are parameters of the
  model: property access \<^verbatim>\<open>data[column]\<close>, \<^verbatim>\<open>===\<close> (and \<^verbatim>\<open>!==\<close>, its negation),
  \<^verbatim>\<open>>\<close>, \<^verbatim>\<open><\<close>, \<^verbatim>\<open>>=\<close>, \<^verbatim>\<open><=\<close>, and, for \<^verbatim>\<open>__convertRow\<close>, the test
  \<^verbatim>\<open>if (row.row)\<close> on a plain data object with what \<^verbatim>\<open>row.row\<close> then is.
\<close>

record ('d, 'v) js =
  js_prop :: "'d \<Rightarrow> string \<Rightarrow> 'v"
  strict_eq :: "'v \<Rightarrow> 'v \<Rightarrow> bool"
  js_gt :: "'v \<Rightarrow> 'v \<Rightarrow> bool"
  js_lt :: "'v \<Rightarrow> 'v \<Rightarrow> bool"
  js_ge :: "'v \<Rightarrow> 'v \<Rightarrow> bool"
  js_le :: "'v \<Rightarrow> 'v \<Rightarrow> bool"
  row_truthy :: "'d \<Rightarrow> bool"
  row_field :: "'d \<Rightarrow> 'd TableRow"

text \<open>\<^verbatim>\<open>checkCondition(condition)\<close>: the \<^verbatim>\<open>switch\<close> on \<^verbatim>\<open>condition.type\<close>, in the
  source's order, \<^verbatim>\<open>default: return false\<close>.\<close>

definition checkCondition :: "('d, 'v) js \<Rightarrow> 'd TableRow \<Rightarrow> 'v Condition \<Rightarrow> bool" where
  "checkCondition js r c =
     (if type_c c = ''eq'' then strict_eq js (js_prop js (data r) (column c)) (value_c c)
      else if type_c c = ''neq'' then \<not> strict_eq js (js_prop js (data r) (column c)) (value_c c)
      else if type_c c = ''gt'' then js_gt js (js_prop js (data r) (column c)) (value_c c)
      else if type_c c = ''lt'' then js_lt js (js_prop js (data r) (column c)) (value_c c)
      else if type_c c = ''gte'' then js_ge js (js_prop js (data r) (column c)) (value_c c)
      else if type_c c = ''lte'' then js_le js (js_prop js (data r) (column c)) (value_c c)
      else False)"

text \<open>
  \<^verbatim>\<open>checkConditions(conditions) { for (let condition of conditions.conditions)
    if (!this.checkCondition(condition)) return false;  return true; }\<close>
  The comparisons are total functions here, so what the loop returns does not show where
  it stopped. \<open>checkConditions_run\<close> is the loop with its return value and, next to it,
  the conditions that it handed to \<^verbatim>\<open>checkCondition\<close>, in the order of the calls;
  \<open>checkConditions\<close> is the return value of that one loop.
\<close>

fun checkConditions_run ::
  "('d, 'v) js \<Rightarrow> 'd TableRow \<Rightarrow> 'v Condition list \<Rightarrow> bool \<times> 'v Condition list" where
  "checkConditions_run js r [] = (True, [])"
| "checkConditions_run js r (c # cs) =
     (if \<not> checkCondition js r c then (False, [c])
      else (case checkConditions_run js r cs of (result, calls) \<Rightarrow> (result, c # calls)))"

definition checkConditions :: "('d, 'v) js \<Rightarrow> 'd TableRow \<Rightarrow> 'v Condition list \<Rightarrow> bool" where
  "checkConditions js r cs = fst (checkConditions_run js r cs)"

text \<open>
  What it is for a condition to hold for a row, in the words of the spec (4.2), not taken
  from the \<^verbatim>\<open>switch\<close>: the operator is one of the six and the comparison that it names
  holds between the row's field value and the condition's literal value. No unrecognised
  operator holds.
\<close>

definition holds :: "('d, 'v) js \<Rightarrow> 'd TableRow \<Rightarrow> 'v Condition \<Rightarrow> bool" where
  "holds js r c =
     (type_c c = ''eq'' \<and> strict_eq js (js_prop js (data r) (column c)) (value_c c)
      \<or> type_c c = ''neq'' \<and> \<not> strict_eq js (js_prop js (data r) (column c)) (value_c c)
      \<or> type_c c = ''gt'' \<and> js_gt js (js_prop js (data r) (column c)) (value_c c)
      \<or> type_c c = ''lt'' \<and> js_lt js (js_prop js (data r) (column c)) (value_c c)
      \<or> type_c c = ''gte'' \<and> js_ge js (js_prop js (data r) (column c)) (value_c c)
      \<or> type_c c = ''lte'' \<and> js_le js (js_prop js (data r) (column c)) (value_c c))"

section \<open>TableStore\<close>

text \<open>
  Modelled from the spec: mapStore.js is not among the sources. The spec's RowCache is an
  ordered map from identity to row: upsert inserts at the end when the identity is absent
  and replaces the data in place otherwise; delete removes by identity and does nothing
  when the identity is absent.
\<close>

type_synonym 'd MapStore = "(string \<times> 'd) list"

definition MapStore_upsert :: "string \<Rightarrow> 'd \<Rightarrow> 'd MapStore \<Rightarrow> 'd MapStore" where
  "MapStore_upsert i d st = AList.update i d st"

definition MapStore_remove :: "string \<Rightarrow> 'd MapStore \<Rightarrow> 'd MapStore" where
  "MapStore_remove i st = AList.delete i st"

text \<open>
  The argument of \<^verbatim>\<open>_upsertInternal\<close> and \<^verbatim>\<open>__convertRow\<close> has the type
  \<^verbatim>\<open>TableRow<T> | BackupRow<T> | Partial<T>\<close>; \<^verbatim>\<open>update\<close> and \<^verbatim>\<open>delete\<close> also pass
  what \<^verbatim>\<open>PessimisticBackup.get\<close> returned, which may be \<^verbatim>\<open>undefined\<close>.
\<close>

datatype 'd row_arg =
  IsTableRow "'d TableRow" | IsBackupRow "'d BackupRow" | IsPartial 'd | IsUndefined

text \<open>
  \<^verbatim>\<open>__convertRow(row) { if (row instanceof TableRow) return row;
    if (row.row) return row.row;
    return new TableRow(row, this.__table.primaryKeys); }\<close>
  \<^verbatim>\<open>keys\<close> is \<^verbatim>\<open>primaryKeys.generateRowID\<close> (primaryKeys.js, not among the sources),
  taken as a total function of the object it is given. Reading \<^verbatim>\<open>row.row\<close> of
  \<^verbatim>\<open>undefined\<close> is a TypeError.
\<close>

fun convertRow ::
  "('d, 'v) js \<Rightarrow> ('d row_arg \<Rightarrow> string) \<Rightarrow> 'd row_arg \<Rightarrow> error + 'd TableRow" where
  "convertRow js keys (IsTableRow r) = Inr r"
| "convertRow js keys (IsBackupRow b) = Inr (row b)"
| "convertRow js keys (IsPartial d) =
     (if row_truthy js d then Inr (row_field js d)
      else Inr \<lparr>data = d, id' = keys (IsPartial d)\<rparr>)"
| "convertRow js keys IsUndefined = Inl TypeError"

definition TableStore_upsert ::
  "('d, 'v) js \<Rightarrow> ('d row_arg \<Rightarrow> string) \<Rightarrow> 'd row_arg \<Rightarrow> 'd MapStore \<Rightarrow> error + 'd MapStore" where
  "TableStore_upsert js keys a st =
     (case convertRow js keys a of
        Inl e \<Rightarrow> Inl e
      | Inr tableRow \<Rightarrow> Inr (MapStore_upsert (id' tableRow) (data tableRow) st))"

definition TableStore_delete ::
  "('d, 'v) js \<Rightarrow> ('d row_arg \<Rightarrow> string) \<Rightarrow> 'd row_arg \<Rightarrow> 'd MapStore \<Rightarrow> error + 'd MapStore" where
  "TableStore_delete js keys a st =
     (case convertRow js keys a of
        Inl e \<Rightarrow> Inl e
      | Inr tableRow \<Rightarrow> Inr (MapStore_remove (id' tableRow) st))"

section \<open>Table\<close>

record Prefilter =
  value_p :: string
  key_p :: string

text \<open>The fields of \<^verbatim>\<open>Table\<close> that the modelled methods read or write. \<open>store\<close> is
  the map inside \<^verbatim>\<open>__store\<close>, \<open>primaryKeys\<close> the identity function of the key schema.\<close>

record ('d, 'v) Table =
  name :: string
  primaryKeys :: "'d row_arg \<Rightarrow> string"
  store :: "'d MapStore"
  conditions :: "'v Condition list"
  pessimisticBackup :: "'d PessimisticBackup"
  optimisticUpdates :: bool
  prefilter :: "Prefilter option"

text \<open>\<^verbatim>\<open>new Date(x)\<close>; a Date object is truthy whatever \<open>x\<close> is.\<close>

datatype Date = Date string

text \<open>\<^verbatim>\<open>row instanceof TableRow ? row : new TableRow(row, this.primaryKeys)\<close>\<close>

fun asTableRow :: "('d row_arg \<Rightarrow> string) \<Rightarrow> 'd row_arg \<Rightarrow> string" where
  "asTableRow keys (IsTableRow r) = id' r"
| "asTableRow keys a = keys a"

text \<open>
  \<^verbatim>\<open>_upsertInternal(row, timestamp?) { const tableRow = ...;
    if (timestamp && this.pessimisticBackup.has(tableRow.id)) return;
    this.__store.upsert(row); }\<close>
  \<open>asTableRow\<close> gives \<^verbatim>\<open>tableRow.id\<close>, the only part of \<^verbatim>\<open>tableRow\<close> that is read.
  For \<^verbatim>\<open>undefined\<close> without a timestamp the call throws whatever \<^verbatim>\<open>generateRowID\<close>
  does with \<^verbatim>\<open>undefined\<close>: at the latest \<^verbatim>\<open>__convertRow\<close> reads \<^verbatim>\<open>row.row\<close> of it.
\<close>

definition upsertInternal ::
  "('d, 'v) js \<Rightarrow> ('d, 'v) Table \<Rightarrow> 'd row_arg \<Rightarrow> Date option \<Rightarrow> error + ('d, 'v) Table" where
  "upsertInternal js t a timestamp =
     (if timestamp \<noteq> None \<and> has (pessimisticBackup t) (asTableRow (primaryKeys t) a)
      then Inr t
      else (case TableStore_upsert js (primaryKeys t) a (store t) of
              Inl e \<Rightarrow> Inl e
            | Inr st \<Rightarrow> Inr (t\<lparr>store := st\<rparr>)))"

definition deleteInternal ::
  "('d, 'v) js \<Rightarrow> ('d, 'v) Table \<Rightarrow> 'd row_arg \<Rightarrow> error + ('d, 'v) Table" where
  "deleteInternal js t a =
     (case TableStore_delete js (primaryKeys t) a (store t) of
        Inl e \<Rightarrow> Inl e
      | Inr st \<Rightarrow> Inr (t\<lparr>store := st\<rparr>))"

subsection \<open>Push events\<close>

record 'd payload =
  new_p :: 'd
  old_p :: 'd
  eventType :: string
  commit_timestamp :: string

text \<open>\<^verbatim>\<open>__parseSubscriptionPayload\<close>: the row is \<^verbatim>\<open>payload.old\<close> for a DELETE and
  \<^verbatim>\<open>payload.new\<close> otherwise; the timestamp is always a Date object.\<close>

definition parseSubscriptionPayload ::
  "('d, 'v) Table \<Rightarrow> 'd payload \<Rightarrow> 'd TableRow \<times> string \<times> Date" where
  "parseSubscriptionPayload t p =
     (let r = (if eventType p = ''DELETE'' then old_p p else new_p p);
          tableRow = \<lparr>data = r, id' = primaryKeys t (IsPartial r)\<rparr>
      in (tableRow, eventType p, Date (commit_timestamp p)))"

text \<open>The callback that \<^verbatim>\<open>_subscribeToChannel\<close> registers for every push event.\<close>

definition subscriptionCallback ::
  "('d, 'v) js \<Rightarrow> ('d, 'v) Table \<Rightarrow> 'd payload \<Rightarrow> error + ('d, 'v) Table" where
  "subscriptionCallback js t p =
     (case parseSubscriptionPayload t p of (tableRow, event, timestamp) \<Rightarrow>
        if checkConditions js tableRow (conditions t) = False
        then deleteInternal js t (IsTableRow tableRow)
        else if event = ''INSERT'' \<or> event = ''UPDATE''
        then upsertInternal js t (IsTableRow tableRow) (Some timestamp)
        else if event = ''DELETE'' then deleteInternal js t (IsTableRow tableRow)
        else Inr t)"

subsection \<open>Mutations\<close>

text \<open>
  \<^verbatim>\<open>update\<close> and \<^verbatim>\<open>delete\<close> are asynchronous: each runs up to its \<^verbatim>\<open>await\<close> of the
  remote call, and resumes when the call has answered; push events and other calls may run
  in between. The two halves are two functions, \<open>_begin\<close> and \<open>_settle\<close>; the HTTP status
  of the answer is an argument of the second. The row argument is a \<^verbatim>\<open>TableRow\<close>, as the
  parameter type of \<^verbatim>\<open>PessimisticBackup.backup\<close> and \<^verbatim>\<open>release\<close> says.
\<close>

definition remote_ok :: "int \<Rightarrow> bool" where
  "remote_ok status = (status \<ge> 200 \<and> status < 300)"

record update_result =
  invokeTime :: Date
  status :: bool

text \<open>\<^verbatim>\<open>if (this.optimisticUpdates) { this._createPessimisticRowBackup(row);
    this._upsertInternal(row); }\<close>\<close>

definition update_begin ::
  "('d, 'v) js \<Rightarrow> ('d, 'v) Table \<Rightarrow> 'd TableRow \<Rightarrow> error + ('d, 'v) Table" where
  "update_begin js t r =
     (if optimisticUpdates t
      then upsertInternal js (t\<lparr>pessimisticBackup := backup r (pessimisticBackup t)\<rparr>)
             (IsTableRow r) None
      else Inr t)"

text \<open>\<^verbatim>\<open>if (this.optimisticUpdates && success) this._releasePessimisticRowBackup(row);
    else { const revokedRow = this._getPessimisticRowBackup(row);
           this._upsertInternal(revokedRow); }
    return { invokeTime, status: success };\<close>\<close>

definition getPessimisticRowBackup :: "('d, 'v) Table \<Rightarrow> 'd TableRow \<Rightarrow> 'd row_arg" where
  "getPessimisticRowBackup t r =
     (case get (pessimisticBackup t) (id' r) of
        None \<Rightarrow> IsUndefined
      | Some b \<Rightarrow> IsBackupRow b)"

definition releasePessimisticRowBackup ::
  "('d, 'v) Table \<Rightarrow> 'd TableRow \<Rightarrow> error + ('d TableRow \<times> ('d, 'v) Table)" where
  "releasePessimisticRowBackup t r =
     (case release r (pessimisticBackup t) of
        Inl e \<Rightarrow> Inl e
      | Inr (x, pb) \<Rightarrow> Inr (x, t\<lparr>pessimisticBackup := pb\<rparr>))"

definition update_settle ::
  "('d, 'v) js \<Rightarrow> Date \<Rightarrow> ('d, 'v) Table \<Rightarrow> 'd TableRow \<Rightarrow> int \<Rightarrow>
   error + (update_result \<times> ('d, 'v) Table)" where
  "update_settle js invoked t r http =
     (let success = remote_ok http in
      if optimisticUpdates t \<and> success
      then (case releasePessimisticRowBackup t r of
              Inl e \<Rightarrow> Inl e
            | Inr (x, t') \<Rightarrow> Inr (\<lparr>invokeTime = invoked, status = success\<rparr>, t'))
      else (case upsertInternal js t (getPessimisticRowBackup t r) None of
              Inl e \<Rightarrow> Inl e
            | Inr t' \<Rightarrow> Inr (\<lparr>invokeTime = invoked, status = success\<rparr>, t')))"

text \<open>One \<^verbatim>\<open>update\<close> call with nothing running between its two halves.\<close>

definition Table_update ::
  "('d, 'v) js \<Rightarrow> Date \<Rightarrow> ('d, 'v) Table \<Rightarrow> 'd TableRow \<Rightarrow> int \<Rightarrow>
   error + (update_result \<times> ('d, 'v) Table)" where
  "Table_update js now t r http =
     (case update_begin js t r of
        Inl e \<Rightarrow> Inl e
      | Inr t1 \<Rightarrow> update_settle js now t1 r http)"

text \<open>\<^verbatim>\<open>if (this.optimisticUpdates) { this._createPessimisticRowBackup(row);
    this._deleteInternal(row); }\<close>\<close>

definition delete_begin ::
  "('d, 'v) js \<Rightarrow> ('d, 'v) Table \<Rightarrow> 'd TableRow \<Rightarrow> error + ('d, 'v) Table" where
  "delete_begin js t r =
     (if optimisticUpdates t
      then deleteInternal js (t\<lparr>pessimisticBackup := backup r (pessimisticBackup t)\<rparr>)
             (IsTableRow r)
      else Inr t)"

text \<open>\<^verbatim>\<open>if (this.optimisticUpdates) {
      if (success) { this._releasePessimisticRowBackup(row); return true; }
      else { const revokedRow = this._getPessimisticRowBackup(row);
             this._upsertInternal(revokedRow); return false; }
    } else { this._releasePessimisticRowBackup(row); return success; }\<close>\<close>

definition delete_settle ::
  "('d, 'v) js \<Rightarrow> ('d, 'v) Table \<Rightarrow> 'd TableRow \<Rightarrow> int \<Rightarrow> error + (bool \<times> ('d, 'v) Table)" where
  "delete_settle js t r http =
     (let success = remote_ok http in
      if optimisticUpdates t
      then (if success
            then (case releasePessimisticRowBackup t r of
                    Inl e \<Rightarrow> Inl e
                  | Inr (x, t') \<Rightarrow> Inr (True, t'))
            else (case upsertInternal js t (getPessimisticRowBackup t r) None of
                    Inl e \<Rightarrow> Inl e
                  | Inr t' \<Rightarrow> Inr (False, t')))
      else (case releasePessimisticRowBackup t r of
              Inl e \<Rightarrow> Inl e
            | Inr (x, t') \<Rightarrow> Inr (success, t')))"

definition Table_delete ::
  "('d, 'v) js \<Rightarrow> ('d, 'v) Table \<Rightarrow> 'd TableRow \<Rightarrow> int \<Rightarrow> error + (bool \<times> ('d, 'v) Table)" where
  "Table_delete js t r http =
     (case delete_begin js t r of
        Inl e \<Rightarrow> Inl e
      | Inr t1 \<Rightarrow> delete_settle js t1 r http)"

subsection \<open>The initial load\<close>

























subsection \<open>Two overlapping updates\<close>

text \<open>
  Two \<^verbatim>\<open>update\<close> calls overlap when the second begins while the first awaits its remote
  call: both first halves run, then the call for \<open>a\<close> settles, then the call for \<open>b\<close>.
\<close>

definition overlapping_updates ::
  "('d, 'v) js \<Rightarrow> Date \<Rightarrow> ('d, 'v) Table \<Rightarrow> 'd TableRow \<Rightarrow> 'd TableRow \<Rightarrow> int \<Rightarrow> int \<Rightarrow>
   error + (update_result \<times> update_result \<times> ('d, 'v) Table)" where
  "overlapping_updates js now t a b http_a http_b =
     (case update_begin js t a of
        Inl e \<Rightarrow> Inl e
      | Inr t1 \<Rightarrow>
     (case update_begin js t1 b of
        Inl e \<Rightarrow> Inl e
      | Inr t2 \<Rightarrow>
     (case update_settle js now t2 a http_a of
        Inl e \<Rightarrow> Inl e
      | Inr (res_a, t3) \<Rightarrow>
     (case update_settle js now t3 b http_b of
        Inl e \<Rightarrow> Inl e
      | Inr (res_b, t4) \<Rightarrow> Inr (res_a, res_b, t4)))))"

section \<open>A concrete table\<close>

text \<open>
  For the closed theorems: rows whose columns hold integers, \<^verbatim>\<open>undefined\<close> being
  \<open>None\<close> (a comparison with \<^verbatim>\<open>undefined\<close> is false in JavaScript, and \<^verbatim>\<open>===\<close>
  on numbers and \<^verbatim>\<open>undefined\<close> is equality); no column is called \<^verbatim>\<open>row\<close>; the
  identity of a row is its column \<^verbatim>\<open>id\<close> in decimal.
\<close>

type_synonym row0 = "(string \<times> int) list"

fun decimal :: "nat \<Rightarrow> string" where
  "decimal n = (if n < 10 then [''0123456789'' ! n]
                else decimal (n div 10) @ [''0123456789'' ! (n mod 10)])"

definition num_cmp :: "(int \<Rightarrow> int \<Rightarrow> bool) \<Rightarrow> int option \<Rightarrow> int option \<Rightarrow> bool" where
  "num_cmp f a b = (case (a, b) of (Some x, Some y) \<Rightarrow> f x y | _ \<Rightarrow> False)"

definition js0 :: "(row0, int option) js" where
  "js0 = \<lparr>js_prop = map_of, strict_eq = (=),
          js_gt = num_cmp (>), js_lt = num_cmp (<), js_ge = num_cmp (\<ge>), js_le = num_cmp (\<le>),
          row_truthy = (\<lambda>d. False), row_field = (\<lambda>d. \<lparr>data = d, id' = ''undefined''\<rparr>)\<rparr>"

fun keys0 :: "row0 row_arg \<Rightarrow> string" where
  "keys0 (IsPartial d) = (case map_of d ''id'' of Some n \<Rightarrow> decimal (nat n) | None \<Rightarrow> ''undefined'')"
| "keys0 a = ''undefined''"

definition mk_row :: "int \<Rightarrow> int \<Rightarrow> row0 TableRow" where
  "mk_row i sc = \<lparr>data = [(''id'', i), (''score'', sc)], id' = decimal (nat i)\<rparr>"

text \<open>A table in optimistic mode that caches row 1 with score 10, and the same table in
  pessimistic mode.\<close>

definition table0 :: "(row0, int option) Table" where
  "table0 = \<lparr>name = ''scores'', primaryKeys = keys0,
             store = [(''1'', [(''id'', 1), (''score'', 10)])],
             conditions = [], pessimisticBackup = [],
             optimisticUpdates = True, prefilter = None\<rparr>"

definition table1 :: "(row0, int option) Table" where
  "table1 = table0\<lparr>optimisticUpdates := False\<rparr>"

text \<open>The same table while an optimistic \<^verbatim>\<open>update\<close> of row 1 to score 11 awaits its
  remote call, and a table that keeps only rows with a score below 5.\<close>

definition table_inflight :: "(row0, int option) Table" where
  "table_inflight = table0\<lparr>store := [(''1'', [(''id'', 1), (''score'', 11)])],
                           pessimisticBackup := [(''1'', \<lparr>row = mk_row 1 11, subscribers = 1\<rparr>)]\<rparr>"

definition table_low :: "(row0, int option) Table" where
  "table_low = table0\<lparr>store := [(''1'', [(''id'', 1), (''score'', 3)])],
                      conditions := [\<lparr>type_c = ''lt'', column = ''score'', value_c = Some 5\<rparr>]\<rparr>"

definition push :: "string \<Rightarrow> int \<Rightarrow> int \<Rightarrow> row0 payload" where
  "push kind i sc = \<lparr>new_p = (if kind = ''DELETE'' then [] else [(''id'', i), (''score'', sc)]),
                     old_p = (if kind = ''DELETE'' then [(''id'', i), (''score'', sc)] else []),
                     eventType = kind, commit_timestamp = ''2024-01-01T00:00:00Z''\<rparr>"



section \<open>Facts about the backup log\<close>

lemma has_iff_get: "has pb i = (get pb i \<noteq> None)"
  by (simp add: has_def get_def)

lemma get_update_same: "get (AList.update i b pb) i = Some b"
  by (simp add: get_def update_conv')

lemma get_update_other: "j \<noteq> i \<Longrightarrow> get (AList.update i b pb) j = get pb j"
  by (simp add: get_def update_conv')

lemma get_delete_same: "get (AList.delete i pb) i = None"
  by (simp add: get_def delete_conv')

lemma get_delete_other: "j \<noteq> i \<Longrightarrow> get (AList.delete i pb) j = get pb j"
  by (simp add: get_def delete_conv')

lemma update_absent: "map_of pb i = None \<Longrightarrow> AList.update i b pb = pb @ [(i, b)]"
  by (induction pb) (auto split: if_splits)

lemma list_all_update:
  "list_all P pb \<Longrightarrow> P (i, b) \<Longrightarrow> list_all P (AList.update i b pb)"
  by (induction pb) auto

lemma list_all_delete: "list_all P pb \<Longrightarrow> list_all P (AList.delete i pb)"
  by (induction pb) auto

lemma get_in_set: "get pb i = Some b \<Longrightarrow> (i, b) \<in> set pb"
  by (simp add: get_def map_of_SomeD)

lemma wf_log_get: "wf_log pb \<Longrightarrow> get pb i = Some b \<Longrightarrow> 1 \<le> subscribers b"
  by (auto simp: wf_log_def list_all_iff dest!: get_in_set)

lemma wf_log_backup: "wf_log pb \<Longrightarrow> wf_log (backup r pb)"
proof -
  assume wf: "wf_log pb"
  show ?thesis
  proof (cases "get pb (id' r)")
    case None
    then show ?thesis
      using wf by (simp add: backup_def has_iff_get wf_log_def distinct_update list_all_update)
  next
    case (Some b)
    then have "1 \<le> subscribers b" using wf by (rule wf_log_get[rotated])
    then show ?thesis
      using wf Some
      by (simp add: backup_def has_iff_get wf_log_def distinct_update list_all_update)
  qed
qed

lemma wf_log_release:
  assumes wf: "wf_log pb" and rel: "release r pb = Inr (x, pb')"
  shows "wf_log pb'"
proof (cases "get pb (id' r)")
  case None
  then show ?thesis using rel by (simp add: release_def has_iff_get)
next
  case (Some b)
  have sub: "1 \<le> subscribers b" using wf Some by (rule wf_log_get)
  show ?thesis
  proof (cases "subscribers b = 1")
    case True
    then have "pb' = AList.delete (id' r) (AList.update (id' r) (b\<lparr>subscribers := 0\<rparr>) pb)"
      using rel Some by (simp add: release_def has_iff_get Let_def)
    then show ?thesis
      using wf
      by (simp add: wf_log_def delete_update_same distinct_delete list_all_delete)
  next
    case False
    then have "pb' = AList.update (id' r) (b\<lparr>subscribers := subscribers b - 1\<rparr>) pb"
      using rel Some by (simp add: release_def has_iff_get Let_def)
    moreover have "1 \<le> subscribers b - 1" using sub False by simp
    ultimately show ?thesis
      using wf by (simp add: wf_log_def distinct_update list_all_update)
  qed
qed

lemma reachable_wf_log: "reachable pb \<Longrightarrow> wf_log pb"
proof (induction rule: reachable.induct)
  case init
  show ?case by (simp add: wf_log_def)
next
  case (by_backup pb r)
  then show ?case by (simp add: wf_log_backup)
next
  case (by_release pb r x pb')
  then show ?case by (blast intro: wf_log_release)
qed


section \<open>PessimisticBackup: release without an entry\<close>

text \<open>
  C5. \<^verbatim>\<open>release\<close> on an identity that has no entry in the log throws
  \<^verbatim>\<open>Error("Row not found in backup")\<close>; it does not return. The error passes through
  \<^verbatim>\<open>_releasePessimisticRowBackup\<close> and through the two callers of it, the settle half
  of \<^verbatim>\<open>update\<close> (optimistic mode, remote success) and of \<^verbatim>\<open>delete\<close> (remote
  success, or pessimistic mode), to the caller of the mutation.
\<close>

theorem release_absent_raises:
  assumes "\<not> has (pessimisticBackup t) (id' r)"
  shows "release r (pessimisticBackup t) = Inl (Error ''Row not found in backup'')
       \<and> releasePessimisticRowBackup t r = Inl (Error ''Row not found in backup'')
       \<and> (if optimisticUpdates t \<and> remote_ok http
          then update_settle js now t r http = Inl (Error ''Row not found in backup'')
          else True)
       \<and> (if optimisticUpdates t \<and> \<not> remote_ok http then True
          else delete_settle js t r http = Inl (Error ''Row not found in backup''))"
  using assms
  by (simp add: release_def releasePessimisticRowBackup_def update_settle_def
      delete_settle_def Let_def)

theorem release_absent_raises_witness:
  "\<not> has (pessimisticBackup table1) (id' (mk_row 1 11))
   \<and> release (mk_row 1 11) (pessimisticBackup table1) = Inl (Error ''Row not found in backup'')
   \<and> delete_settle js0 table1 (mk_row 1 11) 200 = Inl (Error ''Row not found in backup'')"
proof -
  have h: "\<not> has (pessimisticBackup table1) (id' (mk_row 1 11))"
    by (simp add: table1_def table0_def has_def)
  show ?thesis
    using h release_absent_raises [OF h, of 200 js0]
    by (simp add: table1_def table0_def)
qed

section \<open>PessimisticBackup: the invariant of the log\<close>

text \<open>
  C6. In every log that \<^verbatim>\<open>backup\<close> and \<^verbatim>\<open>release\<close> calls build from the empty log,
  an identity has at most one entry and every entry's \<^verbatim>\<open>subscribers\<close> is at least 1.
  \<^verbatim>\<open>backup\<close> appends an entry with a copy of the row and the count 1 when the identity
  has none, and adds 1 to the count of the entry otherwise. \<^verbatim>\<open>release\<close> returns the
  stored row of the entry and subtracts 1 from its count; the entry is gone afterwards
  exactly when the new count is 0, and is there with the new count otherwise.
\<close>

theorem backup_log_invariant:
  assumes "reachable pb"
  shows "distinct (map fst pb)
       \<and> list_all (\<lambda>(i, b). 1 \<le> subscribers b) pb
       \<and> (\<not> has pb (id' r) \<longrightarrow>
            backup r pb = pb @ [(id' r, \<lparr>row = r, subscribers = 1\<rparr>)])
       \<and> (\<forall>b. get pb (id' r) = Some b \<longrightarrow>
              get (backup r pb) (id' r) = Some (b\<lparr>subscribers := subscribers b + 1\<rparr>)
            \<and> (\<forall>j. j \<noteq> id' r \<longrightarrow> get (backup r pb) j = get pb j)
            \<and> (\<exists>pb'. release r pb = Inr (row b, pb')
                 \<and> (has pb' (id' r) \<longleftrightarrow> subscribers b - 1 \<noteq> 0)
                 \<and> (subscribers b - 1 \<noteq> 0 \<longrightarrow>
                      get pb' (id' r) = Some (b\<lparr>subscribers := subscribers b - 1\<rparr>))
                 \<and> (\<forall>j. j \<noteq> id' r \<longrightarrow> get pb' j = get pb j)))"
proof -
  have wf: "wf_log pb" using assms by (rule reachable_wf_log)
  have c1: "distinct (map fst pb)" using wf by (simp add: wf_log_def)
  have c2: "list_all (\<lambda>(i, b). 1 \<le> subscribers b) pb" using wf by (simp add: wf_log_def)
  have c3: "\<not> has pb (id' r) \<longrightarrow>
            backup r pb = pb @ [(id' r, \<lparr>row = r, subscribers = 1\<rparr>)]"
    by (simp add: backup_def has_def structuredClone_def update_absent)
  have c4: "get (backup r pb) (id' r) = Some (b\<lparr>subscribers := subscribers b + 1\<rparr>)
            \<and> (\<forall>j. j \<noteq> id' r \<longrightarrow> get (backup r pb) j = get pb j)"
    if "get pb (id' r) = Some b" for b
    using that by (simp add: backup_def has_iff_get get_update_same get_update_other)
  have c5: "\<exists>pb'. release r pb = Inr (row b, pb')
                 \<and> (has pb' (id' r) \<longleftrightarrow> subscribers b - 1 \<noteq> 0)
                 \<and> (subscribers b - 1 \<noteq> 0 \<longrightarrow>
                      get pb' (id' r) = Some (b\<lparr>subscribers := subscribers b - 1\<rparr>))
                 \<and> (\<forall>j. j \<noteq> id' r \<longrightarrow> get pb' j = get pb j)"
    if "get pb (id' r) = Some b" for b
    using that
    by (simp add: release_def has_iff_get Let_def get_update_same get_update_other
        get_delete_same get_delete_other)
  show ?thesis using c1 c2 c3 c4 c5 by blast
qed

theorem backup_log_invariant_witness:
  "reachable (backup (mk_row 1 11) [])
   \<and> distinct (map fst (backup (mk_row 1 11) []))
   \<and> list_all (\<lambda>(i, b). 1 \<le> subscribers b) (backup (mk_row 1 11) [])
   \<and> \<not> has (backup (mk_row 1 11) []) (id' (mk_row 2 5))
   \<and> backup (mk_row 2 5) (backup (mk_row 1 11) [])
       = backup (mk_row 1 11) [] @ [(id' (mk_row 2 5), \<lparr>row = mk_row 2 5, subscribers = 1\<rparr>)]
   \<and> get (backup (mk_row 1 11) []) (id' (mk_row 1 12)) = Some \<lparr>row = mk_row 1 11, subscribers = 1\<rparr>
   \<and> get (backup (mk_row 1 12) (backup (mk_row 1 11) [])) (id' (mk_row 1 12))
       = Some \<lparr>row = mk_row 1 11, subscribers = 2\<rparr>
   \<and> release (mk_row 1 12) (backup (mk_row 1 11) []) = Inr (mk_row 1 11, [])"
proof -
  let ?pb = "backup (mk_row 1 11) ([] :: row0 PessimisticBackup)"
  have r: "reachable ?pb"
    by (rule by_backup [OF init])
  have a: "\<not> has ?pb (id' (mk_row 2 5))"
    by (simp add: backup_def has_def mk_row_def)
  have g: "get ?pb (id' (mk_row 1 12)) = Some \<lparr>row = mk_row 1 11, subscribers = 1\<rparr>"
    by (simp add: backup_def has_def get_def mk_row_def structuredClone_def)
  have rel: "release (mk_row 1 12) ?pb = Inr (mk_row 1 11, [])"
    by (simp add: release_def backup_def has_def get_def mk_row_def structuredClone_def Let_def)
  have c1: "distinct (map fst ?pb)"
    using backup_log_invariant [OF r] by (rule conjunct1)
  have c2: "list_all (\<lambda>(i, b). 1 \<le> subscribers b) ?pb"
    using backup_log_invariant [OF r, of "mk_row 2 5"] by blast
  have c3: "backup (mk_row 2 5) ?pb
              = ?pb @ [(id' (mk_row 2 5), \<lparr>row = mk_row 2 5, subscribers = 1\<rparr>)]"
    using backup_log_invariant [OF r, of "mk_row 2 5"] a by blast
  have c4: "get (backup (mk_row 1 12) ?pb) (id' (mk_row 1 12))
              = Some \<lparr>row = mk_row 1 11, subscribers = 2\<rparr>"
    using backup_log_invariant [OF r, of "mk_row 1 12"] g by simp
  show ?thesis
    by (intro conjI) (rule r c1 c2 a c3 g c4 rel)+
qed


section \<open>PessimisticBackup: nested backups\<close>

lemma get_fold_backup:
  "get pb i = Some b \<Longrightarrow> \<forall>x\<in>set rs. id' x = i \<Longrightarrow>
   get (fold backup rs pb) i = Some (b\<lparr>subscribers := subscribers b + int (length rs)\<rparr>)"
proof (induction rs arbitrary: pb b)
  case Nil
  then show ?case by simp
next
  case (Cons x xs)
  from Cons.prems have x: "id' x = i" by simp
  have "get (backup x pb) i = Some (b\<lparr>subscribers := subscribers b + 1\<rparr>)"
    using Cons.prems(1) x by (simp add: backup_def has_iff_get get_update_same)
  from Cons.IH [OF this] Cons.prems(2) show ?case
    by (simp add: add.assoc add.commute)
qed

lemma releases_replicate:
  "get pb (id' r) = Some b \<Longrightarrow> int n \<le> subscribers b \<Longrightarrow>
   releases n r pb = replicate n (Inr (row b))"
proof (induction n arbitrary: pb b)
  case 0
  then show ?case by simp
next
  case (Suc n)
  show ?case
  proof (cases "subscribers b - 1 = 0")
    case True
    with Suc.prems(2) have "n = 0" by simp
    then show ?thesis
      using Suc.prems(1) by (simp add: release_def has_iff_get Let_def)
  next
    case False
    let ?b = "b\<lparr>subscribers := subscribers b - 1\<rparr>"
    let ?pb = "AList.update (id' r) ?b pb"
    have rel: "release r pb = Inr (row b, ?pb)"
      using Suc.prems(1) False by (simp add: release_def has_iff_get Let_def)
    have "get ?pb (id' r) = Some ?b" by (rule get_update_same)
    moreover have "int n \<le> subscribers ?b" using Suc.prems(2) by simp
    ultimately have "releases n r ?pb = replicate n (Inr (row ?b))" by (rule Suc.IH)
    then show ?thesis using rel by simp
  qed
qed

text \<open>
  C10. A \<^verbatim>\<open>backup\<close> call for an identity that has an entry adds 1 to the count of the
  entry and changes nothing else: the stored row stays, the other entries and the order
  of the log stay, and the log after the call does not depend on the data of the row that
  was passed. So after a first \<^verbatim>\<open>backup(r0)\<close> for a fresh identity and any further
  \<^verbatim>\<open>backup\<close> calls \<open>rs\<close> for the same identity, each of the \<open>n\<close> following
  \<^verbatim>\<open>release\<close> calls (as many as there were backups, at most) returns \<open>r0\<close>.
\<close>

theorem nested_backup_keeps_snapshot:
  assumes "\<forall>x\<in>set rs. id' x = id' r0" and "id' r = id' r0"
  shows "(\<forall>b. get pb (id' r) = Some b \<longrightarrow>
            get (backup r pb) (id' r) = Some \<lparr>row = row b, subscribers = subscribers b + 1\<rparr>
          \<and> (\<forall>j. j \<noteq> id' r \<longrightarrow> get (backup r pb) j = get pb j)
          \<and> map fst (backup r pb) = map fst pb
          \<and> backup r pb = backup (r\<lparr>data := d\<rparr>) pb)
       \<and> (\<not> has pb (id' r0) \<and> n \<le> length rs + 1 \<longrightarrow>
            releases n r (fold backup rs (backup r0 pb)) = replicate n (Inr r0))"
proof -
  have frame: "get (backup r pb) (id' r) = Some \<lparr>row = row b, subscribers = subscribers b + 1\<rparr>
          \<and> (\<forall>j. j \<noteq> id' r \<longrightarrow> get (backup r pb) j = get pb j)
          \<and> map fst (backup r pb) = map fst pb
          \<and> backup r pb = backup (r\<lparr>data := d\<rparr>) pb"
    if g: "get pb (id' r) = Some b" for b
  proof -
    have eq: "backup r pb = AList.update (id' r) (b\<lparr>subscribers := subscribers b + 1\<rparr>) pb"
      using g by (simp add: backup_def has_iff_get)
    have "id' r \<in> fst ` set pb"
      using g by (metis get_in_set fst_conv image_eqI)
    then have keys: "map fst (backup r pb) = map fst pb"
      unfolding eq by (simp add: update_keys)
    have same: "backup (r\<lparr>data := d\<rparr>) pb = backup r pb"
      using g by (simp add: backup_def has_iff_get)
    show ?thesis
      using keys same by (simp add: eq get_update_same get_update_other)
  qed
  have seq: "releases n r (fold backup rs (backup r0 pb)) = replicate n (Inr r0)"
    if fresh: "\<not> has pb (id' r0)" and n: "n \<le> length rs + 1"
  proof -
    have "get (backup r0 pb) (id' r0) = Some \<lparr>row = r0, subscribers = 1\<rparr>"
      using fresh by (simp add: backup_def structuredClone_def get_update_same)
    from get_fold_backup [OF this assms(1)]
    have "get (fold backup rs (backup r0 pb)) (id' r)
            = Some \<lparr>row = r0, subscribers = 1 + int (length rs)\<rparr>"
      using assms(2) by simp
    from releases_replicate [OF this, of n] n show ?thesis by simp
  qed
  show ?thesis using frame seq by blast
qed

theorem nested_backup_keeps_snapshot_witness:
  "id' (mk_row 1 12) = id' (mk_row 1 11)
   \<and> id' (mk_row 1 13) = id' (mk_row 1 11)
   \<and> id' (mk_row 1 14) = id' (mk_row 1 11)
   \<and> \<not> has ([] :: row0 PessimisticBackup) (id' (mk_row 1 11))
   \<and> releases 3 (mk_row 1 14) (fold backup [mk_row 1 12, mk_row 1 13] (backup (mk_row 1 11) []))
       = [Inr (mk_row 1 11), Inr (mk_row 1 11), Inr (mk_row 1 11)]"
proof -
  have h1: "\<forall>x\<in>set [mk_row 1 12, mk_row 1 13]. id' x = id' (mk_row 1 11)"
    by (simp add: mk_row_def)
  have h2: "id' (mk_row 1 14) = id' (mk_row 1 11)"
    by (simp add: mk_row_def)
  have h3: "\<not> has ([] :: row0 PessimisticBackup) (id' (mk_row 1 11))"
    by (simp add: has_def)
  have e: "replicate 3 x = [x, x, x]" for x :: "error + row0 TableRow"
    by (simp add: numeral_3_eq_3)
  have "releases 3 (mk_row 1 14)
          (fold backup [mk_row 1 12, mk_row 1 13] (backup (mk_row 1 11) []))
        = replicate 3 (Inr (mk_row 1 11))"
    using nested_backup_keeps_snapshot [OF h1 h2, of "[]" undefined 3] h3 by simp
  then have h4: "releases 3 (mk_row 1 14)
          (fold backup [mk_row 1 12, mk_row 1 13] (backup (mk_row 1 11) []))
        = [Inr (mk_row 1 11), Inr (mk_row 1 11), Inr (mk_row 1 11)]"
    unfolding e .
  have h0: "id' (mk_row 1 12) = id' (mk_row 1 11)" "id' (mk_row 1 13) = id' (mk_row 1 11)"
    by (simp_all add: mk_row_def)
  show ?thesis
    by (intro conjI) (rule h0 h2 h3 h4)+
qed

section \<open>TableRow: checkConditions\<close>

lemma checkConditions_Nil [simp]: "checkConditions js r [] = True"
  by (simp add: checkConditions_def)

lemma checkConditions_Cons [simp]:
  "checkConditions js r (c # cs) =
     (if \<not> checkCondition js r c then False else checkConditions js r cs)"
  by (simp add: checkConditions_def split: prod.splits)

lemma checkCondition_holds: "checkCondition js r c = holds js r c"
  by (auto simp: checkCondition_def holds_def)

lemma checkConditions_run_closed:
  "checkConditions_run js r cs
     = ((\<forall>c\<in>set cs. holds js r c),
        takeWhile (holds js r) cs @ take 1 (dropWhile (holds js r) cs))"
  by (induction cs) (auto simp: checkCondition_holds)

text \<open>
  C8. \<^verbatim>\<open>checkConditions\<close> is true exactly when every condition of the set holds for
  the row, where a condition holds when its operator is one of eq, neq, gt, lt, gte, lte
  and that comparison holds between the row's field and the condition's value: a set of
  one condition with the operator eq gives \<^verbatim>\<open>===\<close> on the two, neq its negation, gt, lt,
  gte and lte give \<^verbatim>\<open>>\<close>, \<^verbatim>\<open><\<close>, \<^verbatim>\<open>>=\<close> and \<^verbatim>\<open><=\<close>. The loop calls
  \<^verbatim>\<open>checkCondition\<close> on the conditions in order and stops after the first one that
  fails: its calls are the longest prefix of conditions that hold, then the first failing
  condition when there is one, whatever comes after that one. It is true of the empty set.
  A condition whose operator is none of the six is false, alone in a set too.
\<close>

theorem checkConditions_conjunction:
  "checkConditions js r cs = (\<forall>c\<in>set cs. holds js r c)
   \<and> checkConditions_run js r cs
       = (checkConditions js r cs,
          takeWhile (holds js r) cs @ take 1 (dropWhile (holds js r) cs))
   \<and> (\<not> holds js r c \<and> (\<forall>x\<in>set pre. holds js r x) \<longrightarrow>
        checkConditions_run js r (pre @ c # post) = (False, pre @ [c]))
   \<and> checkConditions js r [] = True
   \<and> checkConditions js r [\<lparr>type_c = ''eq'', column = col, value_c = v\<rparr>]
       = strict_eq js (js_prop js (data r) col) v
   \<and> checkConditions js r [\<lparr>type_c = ''neq'', column = col, value_c = v\<rparr>]
       = (\<not> strict_eq js (js_prop js (data r) col) v)
   \<and> checkConditions js r [\<lparr>type_c = ''gt'', column = col, value_c = v\<rparr>]
       = js_gt js (js_prop js (data r) col) v
   \<and> checkConditions js r [\<lparr>type_c = ''lt'', column = col, value_c = v\<rparr>]
       = js_lt js (js_prop js (data r) col) v
   \<and> checkConditions js r [\<lparr>type_c = ''gte'', column = col, value_c = v\<rparr>]
       = js_ge js (js_prop js (data r) col) v
   \<and> checkConditions js r [\<lparr>type_c = ''lte'', column = col, value_c = v\<rparr>]
       = js_le js (js_prop js (data r) col) v
   \<and> (type_c c \<notin> {''eq'', ''neq'', ''gt'', ''lt'', ''gte'', ''lte''} \<longrightarrow>
        \<not> holds js r c \<and> checkCondition js r c = False \<and> checkConditions js r [c] = False)"
proof -
  have all: "checkConditions js r cs = (\<forall>c\<in>set cs. holds js r c)" for cs
    by (simp add: checkConditions_def checkConditions_run_closed)
  have run: "checkConditions_run js r cs
       = (checkConditions js r cs,
          takeWhile (holds js r) cs @ take 1 (dropWhile (holds js r) cs))"
    by (simp add: all checkConditions_run_closed)
  have stop: "\<not> holds js r c \<and> (\<forall>x\<in>set pre. holds js r x) \<longrightarrow>
        checkConditions_run js r (pre @ c # post) = (False, pre @ [c])"
    by (auto simp: checkConditions_run_closed dropWhile_append)
  have ops:
    "checkConditions js r [\<lparr>type_c = ''eq'', column = col, value_c = v\<rparr>]
       = strict_eq js (js_prop js (data r) col) v"
    "checkConditions js r [\<lparr>type_c = ''neq'', column = col, value_c = v\<rparr>]
       = (\<not> strict_eq js (js_prop js (data r) col) v)"
    "checkConditions js r [\<lparr>type_c = ''gt'', column = col, value_c = v\<rparr>]
       = js_gt js (js_prop js (data r) col) v"
    "checkConditions js r [\<lparr>type_c = ''lt'', column = col, value_c = v\<rparr>]
       = js_lt js (js_prop js (data r) col) v"
    "checkConditions js r [\<lparr>type_c = ''gte'', column = col, value_c = v\<rparr>]
       = js_ge js (js_prop js (data r) col) v"
    "checkConditions js r [\<lparr>type_c = ''lte'', column = col, value_c = v\<rparr>]
       = js_le js (js_prop js (data r) col) v"
    by (simp_all add: checkCondition_def)
  have other: "type_c c \<notin> {''eq'', ''neq'', ''gt'', ''lt'', ''gte'', ''lte''} \<longrightarrow>
        \<not> holds js r c \<and> checkCondition js r c = False \<and> checkConditions js r [c] = False"
    by (simp add: checkCondition_def holds_def)
  show ?thesis
    by (intro conjI) (rule all run stop checkConditions_Nil ops other)+
qed

theorem checkConditions_conjunction_witness:
  "checkConditions js0 (mk_row 1 10)
     [\<lparr>type_c = ''gt'', column = ''score'', value_c = Some 5\<rparr>,
      \<lparr>type_c = ''lt'', column = ''score'', value_c = Some 3\<rparr>,
      \<lparr>type_c = ''eq'', column = ''id'', value_c = Some 1\<rparr>] = False
   \<and> checkConditions_run js0 (mk_row 1 10)
     [\<lparr>type_c = ''gt'', column = ''score'', value_c = Some 5\<rparr>,
      \<lparr>type_c = ''lt'', column = ''score'', value_c = Some 3\<rparr>,
      \<lparr>type_c = ''eq'', column = ''id'', value_c = Some 1\<rparr>]
     = (False, [\<lparr>type_c = ''gt'', column = ''score'', value_c = Some 5\<rparr>,
                \<lparr>type_c = ''lt'', column = ''score'', value_c = Some 3\<rparr>])
   \<and> checkConditions js0 (mk_row 1 10)
     [\<lparr>type_c = ''gt'', column = ''score'', value_c = Some 5\<rparr>,
      \<lparr>type_c = ''eq'', column = ''id'', value_c = Some 1\<rparr>] = True
   \<and> checkConditions js0 (mk_row 1 10) [\<lparr>type_c = ''eq'', column = ''score'', value_c = Some 10\<rparr>] = True
   \<and> checkConditions js0 (mk_row 1 10) [\<lparr>type_c = ''gt'', column = ''score'', value_c = Some 99\<rparr>] = False
   \<and> type_c \<lparr>type_c = ''like'', column = ''score'', value_c = Some (10::int)\<rparr>
       \<notin> {''eq'', ''neq'', ''gt'', ''lt'', ''gte'', ''lte''}
   \<and> checkConditions js0 (mk_row 1 10)
       [\<lparr>type_c = ''like'', column = ''score'', value_c = Some 10\<rparr>] = False"
proof -
  let ?r = "mk_row 1 10"
  let ?gt5 = "\<lparr>type_c = ''gt'', column = ''score'', value_c = Some (5::int)\<rparr>"
  let ?lt3 = "\<lparr>type_c = ''lt'', column = ''score'', value_c = Some (3::int)\<rparr>"
  let ?id1 = "\<lparr>type_c = ''eq'', column = ''id'', value_c = Some (1::int)\<rparr>"
  let ?like = "\<lparr>type_c = ''like'', column = ''score'', value_c = Some (10::int)\<rparr>"
  have h: "holds js0 ?r ?gt5" "\<not> holds js0 ?r ?lt3" "holds js0 ?r ?id1"
    by (simp_all add: holds_def js0_def mk_row_def num_cmp_def)
  have a1: "checkConditions js0 ?r [?gt5, ?lt3, ?id1]
              = (\<forall>c\<in>set [?gt5, ?lt3, ?id1]. holds js0 ?r c)"
    by (rule checkConditions_conjunction
          [where js = js0 and r = ?r and cs = "[?gt5, ?lt3, ?id1]", THEN conjunct1])
  have w1: "checkConditions js0 ?r [?gt5, ?lt3, ?id1] = False"
    unfolding a1 using h by simp
  have a2: "checkConditions_run js0 ?r [?gt5, ?lt3, ?id1]
              = (checkConditions js0 ?r [?gt5, ?lt3, ?id1],
                 takeWhile (holds js0 ?r) [?gt5, ?lt3, ?id1]
                 @ take 1 (dropWhile (holds js0 ?r) [?gt5, ?lt3, ?id1]))"
    by (rule checkConditions_conjunction
          [where js = js0 and r = ?r and cs = "[?gt5, ?lt3, ?id1]",
           THEN conjunct2, THEN conjunct1])
  have w2: "checkConditions_run js0 ?r [?gt5, ?lt3, ?id1] = (False, [?gt5, ?lt3])"
    unfolding a2 w1 using h by simp
  have a3: "checkConditions js0 ?r [?gt5, ?id1] = (\<forall>c\<in>set [?gt5, ?id1]. holds js0 ?r c)"
    by (rule checkConditions_conjunction
          [where js = js0 and r = ?r and cs = "[?gt5, ?id1]", THEN conjunct1])
  have w3: "checkConditions js0 ?r [?gt5, ?id1] = True"
    unfolding a3 using h by simp
  have a4: "checkConditions js0 ?r [\<lparr>type_c = ''eq'', column = ''score'', value_c = Some 10\<rparr>]
              = strict_eq js0 (js_prop js0 (data ?r) ''score'') (Some 10)"
    by (rule checkConditions_conjunction
          [where js = js0 and r = ?r and col = "''score''" and v = "Some 10",
           THEN conjunct2, THEN conjunct2, THEN conjunct2, THEN conjunct2, THEN conjunct1])
  have w4: "checkConditions js0 ?r [\<lparr>type_c = ''eq'', column = ''score'', value_c = Some 10\<rparr>] = True"
    unfolding a4 by (simp add: js0_def mk_row_def)
  have a5: "checkConditions js0 ?r [\<lparr>type_c = ''gt'', column = ''score'', value_c = Some 99\<rparr>]
              = js_gt js0 (js_prop js0 (data ?r) ''score'') (Some 99)"
    by (rule checkConditions_conjunction
          [where js = js0 and r = ?r and col = "''score''" and v = "Some 99",
           THEN conjunct2, THEN conjunct2, THEN conjunct2, THEN conjunct2, THEN conjunct2,
           THEN conjunct2, THEN conjunct1])
  have w5: "checkConditions js0 ?r [\<lparr>type_c = ''gt'', column = ''score'', value_c = Some 99\<rparr>] = False"
    unfolding a5 by (simp add: js0_def mk_row_def num_cmp_def)
  have w6: "type_c ?like \<notin> {''eq'', ''neq'', ''gt'', ''lt'', ''gte'', ''lte''}"
    by simp
  have a7: "type_c ?like \<notin> {''eq'', ''neq'', ''gt'', ''lt'', ''gte'', ''lte''} \<longrightarrow>
        \<not> holds js0 ?r ?like \<and> checkCondition js0 ?r ?like = False
        \<and> checkConditions js0 ?r [?like] = False"
    by (rule checkConditions_conjunction
          [where js = js0 and r = ?r and c = ?like,
           THEN conjunct2, THEN conjunct2, THEN conjunct2, THEN conjunct2, THEN conjunct2,
           THEN conjunct2, THEN conjunct2, THEN conjunct2, THEN conjunct2, THEN conjunct2])
  have w7: "checkConditions js0 ?r [?like] = False"
    using a7 w6 by blast
  show ?thesis
    by (intro conjI) (rule w1 w2 w3 w4 w5 w6 w7)+
qed

section \<open>Push events\<close>

lemma deleteInternal_TableRow:
  "deleteInternal js t (IsTableRow r) = Inr (t\<lparr>store := MapStore_remove (id' r) (store t)\<rparr>)"
  by (simp add: deleteInternal_def TableStore_delete_def)

lemma upsertInternal_TableRow:
  "upsertInternal js t (IsTableRow r) ts =
     (if ts \<noteq> None \<and> has (pessimisticBackup t) (id' r) then Inr t
      else Inr (t\<lparr>store := MapStore_upsert (id' r) (data r) (store t)\<rparr>))"
  by (simp add: upsertInternal_def TableStore_upsert_def)

text \<open>
  C9. When the row of a push event fails the conditions of the table, the callback
  removes the row's identity from the cache, whatever the kind of the event (which the
  callback does not look at on this path); nothing else of the table changes.
\<close>

theorem irrelevant_push_event_deletes:
  assumes "parseSubscriptionPayload t p = (tableRow, event, timestamp)"
    and "\<not> checkConditions js tableRow (conditions t)"
  shows "subscriptionCallback js t p
           = Inr (t\<lparr>store := MapStore_remove (id' tableRow) (store t)\<rparr>)
       \<and> map_of (MapStore_remove (id' tableRow) (store t)) (id' tableRow) = None
       \<and> (\<forall>j. j \<noteq> id' tableRow \<longrightarrow>
            map_of (MapStore_remove (id' tableRow) (store t)) j = map_of (store t) j)"
  using assms
  by (simp add: subscriptionCallback_def deleteInternal_TableRow MapStore_remove_def
      delete_conv')

theorem irrelevant_push_event_deletes_witness:
  "parseSubscriptionPayload table_low (push ''UPDATE'' 1 10)
     = (mk_row 1 10, ''UPDATE'', Date ''2024-01-01T00:00:00Z'')
   \<and> \<not> checkConditions js0 (mk_row 1 10) (conditions table_low)
   \<and> subscriptionCallback js0 table_low (push ''UPDATE'' 1 10) = Inr (table_low\<lparr>store := []\<rparr>)
   \<and> subscriptionCallback js0 table_low (push ''INSERT'' 1 10) = Inr (table_low\<lparr>store := []\<rparr>)
   \<and> subscriptionCallback js0 table_low (push ''DELETE'' 1 10) = Inr (table_low\<lparr>store := []\<rparr>)"
proof -
  have p: "parseSubscriptionPayload table_low (push kind 1 10)
             = (mk_row 1 10, kind, Date ''2024-01-01T00:00:00Z'')" for kind
    by (simp add: parseSubscriptionPayload_def push_def table_low_def table0_def mk_row_def)
  have c: "\<not> checkConditions js0 (mk_row 1 10) (conditions table_low)"
    by (simp add: table_low_def table0_def checkCondition_def js0_def mk_row_def num_cmp_def)
  have s: "MapStore_remove (id' (mk_row 1 10)) (store table_low) = []"
    by (simp add: MapStore_remove_def table_low_def table0_def mk_row_def)
  show ?thesis
    using p c irrelevant_push_event_deletes [OF p c, of "''UPDATE''"]
      irrelevant_push_event_deletes [OF p c, of "''INSERT''"]
      irrelevant_push_event_deletes [OF p c, of "''DELETE''"]
    by (simp add: s)
qed

text \<open>
  C3, as the code has it. A push event is dropped when the identity of its row has an
  entry in the backup log, the row passes the conditions of the table and the kind of the
  event is INSERT or UPDATE: the table after the callback is the table before it. The
  callback hands a Date object to \<^verbatim>\<open>_upsertInternal\<close> for every event, so the test of the
  timestamp there always succeeds.
\<close>

theorem stale_push_event_dropped:
  assumes "parseSubscriptionPayload t p = (tableRow, event, timestamp)"
    and "has (pessimisticBackup t) (id' tableRow)"
    and "checkConditions js tableRow (conditions t)"
    and "event = ''INSERT'' \<or> event = ''UPDATE''"
  shows "subscriptionCallback js t p = Inr t"
  using assms
  by (auto simp add: subscriptionCallback_def upsertInternal_TableRow)

theorem stale_push_event_dropped_witness:
  "parseSubscriptionPayload table_inflight (push ''UPDATE'' 1 20)
     = (mk_row 1 20, ''UPDATE'', Date ''2024-01-01T00:00:00Z'')
   \<and> has (pessimisticBackup table_inflight) (id' (mk_row 1 20))
   \<and> checkConditions js0 (mk_row 1 20) (conditions table_inflight)
   \<and> subscriptionCallback js0 table_inflight (push ''UPDATE'' 1 20) = Inr table_inflight"
proof -
  have p: "parseSubscriptionPayload table_inflight (push ''UPDATE'' 1 20)
             = (mk_row 1 20, ''UPDATE'', Date ''2024-01-01T00:00:00Z'')"
    by (simp add: parseSubscriptionPayload_def push_def table_inflight_def table0_def
        mk_row_def)
  have h: "has (pessimisticBackup table_inflight) (id' (mk_row 1 20))"
    by (simp add: table_inflight_def table0_def has_def mk_row_def)
  have c: "checkConditions js0 (mk_row 1 20) (conditions table_inflight)"
    by (simp add: table_inflight_def table0_def)
  show ?thesis
    using p h c stale_push_event_dropped [OF p h c] by simp
qed

text \<open>
  C3 as the spec states it fails for the other events. The optimistic \<^verbatim>\<open>update\<close> of
  row 1 is in flight, so identity 1 is in the backup log. A DELETE event for row 1, whose
  row passes the (empty) conditions, empties the cache; and with the condition score < 5
  on the table, an UPDATE event that carries score 20 empties it too.
\<close>

theorem stale_push_event_counterexample:
  "update_begin js0 table0 (mk_row 1 11) = Inr table_inflight
   \<and> has (pessimisticBackup table_inflight) ''1''
   \<and> fst (parseSubscriptionPayload table_inflight (push ''DELETE'' 1 10)) = mk_row 1 10
   \<and> id' (mk_row 1 10) = ''1''
   \<and> store table_inflight = [(''1'', [(''id'', 1), (''score'', 11)])]
   \<and> subscriptionCallback js0 table_inflight (push ''DELETE'' 1 10)
       = Inr (table_inflight\<lparr>store := []\<rparr>)
   \<and> subscriptionCallback js0
        (table_inflight\<lparr>conditions := [\<lparr>type_c = ''lt'', column = ''score'', value_c = Some 5\<rparr>]\<rparr>)
        (push ''UPDATE'' 1 20)
       = Inr (table_inflight\<lparr>conditions := [\<lparr>type_c = ''lt'', column = ''score'', value_c = Some 5\<rparr>],
                              store := []\<rparr>)"
  by (simp add: update_begin_def upsertInternal_TableRow subscriptionCallback_def
      deleteInternal_TableRow parseSubscriptionPayload_def push_def table_inflight_def
      table0_def mk_row_def has_def backup_def structuredClone_def MapStore_upsert_def
      MapStore_remove_def checkCondition_def js0_def num_cmp_def)



section \<open>The initial load\<close>















section \<open>Mutations\<close>

text \<open>
  What the two settle halves do for every table and row. A failed \<^verbatim>\<open>update\<close> leaves
  the backup log as it is; in pessimistic mode, where the log has no entry, \<^verbatim>\<open>update\<close>
  and \<^verbatim>\<open>delete\<close> throw; the snapshot that the first half of an optimistic \<^verbatim>\<open>update\<close>
  stores is the row it was given, which is also what it writes to the cache.
\<close>

lemma upsertInternal_keeps_log:
  "upsertInternal js t a ts = Inr t' \<Longrightarrow> pessimisticBackup t' = pessimisticBackup t"
  by (auto simp: upsertInternal_def split: if_splits sum.splits)

lemma update_settle_failure_keeps_log:
  assumes "\<not> remote_ok http" and "update_settle js now t r http = Inr (res, t')"
  shows "pessimisticBackup t' = pessimisticBackup t"
  using assms
  by (auto simp: update_settle_def Let_def split: sum.splits dest: upsertInternal_keeps_log)

lemma update_pessimistic_raises:
  assumes "\<not> optimisticUpdates t" and "\<not> has (pessimisticBackup t) (id' r)"
  shows "Table_update js now t r http = Inl TypeError"
  using assms
  by (simp add: Table_update_def update_begin_def update_settle_def Let_def
      getPessimisticRowBackup_def has_iff_get upsertInternal_def TableStore_upsert_def)

lemma delete_pessimistic_raises:
  assumes "\<not> optimisticUpdates t" and "\<not> has (pessimisticBackup t) (id' r)"
  shows "Table_delete js t r http = Inl (Error ''Row not found in backup'')"
  using assms
  by (simp add: Table_delete_def delete_begin_def delete_settle_def Let_def
      releasePessimisticRowBackup_def release_def)

lemma update_begin_snapshot:
  assumes "optimisticUpdates t" and "\<not> has (pessimisticBackup t) (id' r)"
  shows "\<exists>t'. update_begin js t r = Inr t'
           \<and> get (pessimisticBackup t') (id' r) = Some \<lparr>row = r, subscribers = 1\<rparr>
           \<and> map_of (store t') (id' r) = Some (data r)"
  using assms
  by (simp add: update_begin_def upsertInternal_def TableStore_upsert_def backup_def
      structuredClone_def get_update_same MapStore_upsert_def update_conv')

text \<open>
  C1, evaluated. The cache holds row 1 with score 10. Two optimistic updates of row 1
  overlap, to score 11 and to score 12. Each calls \<^verbatim>\<open>backup\<close> once, so the entry counts
  2. When both remote calls fail, neither call releases: the entry stays with count 2, and
  the cache ends with score 11, the copy of the first call's argument that the log holds,
  not with score 10. When the first fails and the second succeeds, the rollback of the
  first leaves score 11 as well, not the score 10 that the cache held when it began.
\<close>

theorem overlapping_updates_rollback:
  "overlapping_updates js0 (Date ''t'') table0 (mk_row 1 11) (mk_row 1 12) 500 500
     = Inr (\<lparr>invokeTime = Date ''t'', status = False\<rparr>, \<lparr>invokeTime = Date ''t'', status = False\<rparr>,
            table0\<lparr>store := [(''1'', [(''id'', 1), (''score'', 11)])],
                   pessimisticBackup := [(''1'', \<lparr>row = mk_row 1 11, subscribers = 2\<rparr>)]\<rparr>)
   \<and> overlapping_updates js0 (Date ''t'') table0 (mk_row 1 11) (mk_row 1 12) 500 200
     = Inr (\<lparr>invokeTime = Date ''t'', status = False\<rparr>, \<lparr>invokeTime = Date ''t'', status = True\<rparr>,
            table0\<lparr>store := [(''1'', [(''id'', 1), (''score'', 11)])],
                   pessimisticBackup := [(''1'', \<lparr>row = mk_row 1 11, subscribers = 1\<rparr>)]\<rparr>)
   \<and> store table0 = [(''1'', [(''id'', 1), (''score'', 10)])]"
  by (simp add: overlapping_updates_def update_begin_def update_settle_def
      upsertInternal_def TableStore_upsert_def MapStore_upsert_def
      getPessimisticRowBackup_def releasePessimisticRowBackup_def release_def backup_def
      has_def get_def structuredClone_def remote_ok_def table0_def mk_row_def Let_def)

text \<open>
  C2, evaluated. In optimistic mode an update whose remote call fails fetches the
  snapshot and upserts it, and returns the invocation time with the flag false, but it
  does not release: the entry of row 1 stays in the log with count 1. In pessimistic
  mode there is no entry, \<^verbatim>\<open>get\<close> returns \<^verbatim>\<open>undefined\<close>, and
  \<^verbatim>\<open>_upsertInternal(undefined)\<close> throws: the call returns nothing, whether the remote
  call failed or succeeded.
\<close>

theorem update_failure_keeps_backup:
  "Table_update js0 (Date ''t'') table0 (mk_row 1 11) 500
     = Inr (\<lparr>invokeTime = Date ''t'', status = False\<rparr>,
            table0\<lparr>store := [(''1'', [(''id'', 1), (''score'', 11)])],
                   pessimisticBackup := [(''1'', \<lparr>row = mk_row 1 11, subscribers = 1\<rparr>)]\<rparr>)
   \<and> Table_update js0 (Date ''t'') table1 (mk_row 1 11) 500 = Inl TypeError
   \<and> Table_update js0 (Date ''t'') table1 (mk_row 1 11) 200 = Inl TypeError"
  by (simp add: Table_update_def update_begin_def update_settle_def
      upsertInternal_def TableStore_upsert_def MapStore_upsert_def
      getPessimisticRowBackup_def releasePessimisticRowBackup_def release_def backup_def
      has_def get_def structuredClone_def remote_ok_def table1_def table0_def mk_row_def Let_def)

text \<open>
  C4, evaluated. In pessimistic mode \<^verbatim>\<open>delete\<close> makes no backup and then releases one:
  the call throws \<^verbatim>\<open>Error("Row not found in backup")\<close> after the remote call, failed
  or not, and the caller gets no boolean. In optimistic mode a failed remote call gives
  false.
\<close>

theorem pessimistic_delete_raises:
  "Table_delete js0 table1 (mk_row 1 10) 500 = Inl (Error ''Row not found in backup'')
   \<and> Table_delete js0 table1 (mk_row 1 10) 200 = Inl (Error ''Row not found in backup'')
   \<and> Table_delete js0 table0 (mk_row 1 10) 500
       = Inr (False, table0\<lparr>pessimisticBackup := [(''1'', \<lparr>row = mk_row 1 10, subscribers = 1\<rparr>)]\<rparr>)"
  by (simp add: Table_delete_def delete_begin_def delete_settle_def deleteInternal_def
      TableStore_delete_def MapStore_remove_def
      upsertInternal_def TableStore_upsert_def MapStore_upsert_def
      getPessimisticRowBackup_def releasePessimisticRowBackup_def release_def backup_def
      has_def get_def structuredClone_def remote_ok_def table1_def table0_def mk_row_def Let_def)


end
